theory Spec2Isabelle
  imports Main
begin

section \<open>The todo-item router of \<open>examples/2-routing/main.go\<close>\<close>

text \<open>
  The program keeps one process-wide slice \<open>todoItems\<close> and registers seven handlers
  on it. Each handler is embedded as a function from the slice and the request to the
  response it writes and the slice it leaves behind. The standard-library calls the
  handlers make (\<open>strconv.Atoi\<close>, \<open>strconv.ParseBool\<close>, \<open>fmt.Sprintf\<close>, the JSON
  encoder, the request's form and the response writer) are embedded after their documented
  behaviour, as far as the handlers observe it. The last part is the listener goroutine of
  \<open>main\<close> and the panic guard \<open>recoverer\<close>.
\<close>

subsection \<open>Data\<close>

record TodoItem =
  Content :: string
  Done :: bool

text \<open>
  What a handler reads of \<open>*http.Request\<close>: \<open>r.PathValue("id")\<close>, \<open>r.URL.Host\<close>, and
  the form. \<open>Form = None\<close> stands for \<open>r.ParseForm()\<close> returning an error; otherwise
  the decoded key/value pairs in the order \<open>r.Form\<close> holds them.
\<close>

record request =
  PathValue :: string
  Host :: string
  Form :: "(string \<times> string) list option"

text \<open>
  What a handler passes to \<open>http.ResponseWriter\<close>. A body is a sequence of writes. What
  \<open>json.NewEncoder(w).Encode\<close> writes is kept as the value its JSON text denotes, strings
  as UTF-8 bytes; \<open>Encode_TodoItem\<close> below says which value that is for an item.
\<close>

datatype payload =
    Text string
  | Json_TodoItem TodoItem
  | Json_TodoItems "TodoItem list"

record response =
  resp_header :: "(string \<times> string) list"
  resp_status :: "nat option"
  resp_body :: "payload list"

definition new_response :: response where
  "new_response = \<lparr>resp_header = [], resp_status = None, resp_body = []\<rparr>"

text \<open>\<open>w.WriteHeader(code)\<close>: the first status written stands.\<close>

definition WriteHeader :: "nat \<Rightarrow> response \<Rightarrow> response" where
  "WriteHeader code w =
     (case resp_status w of
        None \<Rightarrow> w\<lparr>resp_status := Some code\<rparr>
      | Some _ \<Rightarrow> w)"

text \<open>\<open>w.Write(b)\<close>: a write before any \<open>WriteHeader\<close> sends status 200 first.\<close>

definition Write :: "payload \<Rightarrow> response \<Rightarrow> response" where
  "Write b w =
     (case resp_status w of
        None \<Rightarrow> w\<lparr>resp_status := Some 200, resp_body := resp_body w @ [b]\<rparr>
      | Some _ \<Rightarrow> w\<lparr>resp_body := resp_body w @ [b]\<rparr>)"

text \<open>\<open>w.Header().Add(k, v)\<close>: takes effect only before the status is written.\<close>

definition Header_Add :: "string \<Rightarrow> string \<Rightarrow> response \<Rightarrow> response" where
  "Header_Add k v w =
     (case resp_status w of
        None \<Rightarrow> w\<lparr>resp_header := resp_header w @ [(k, v)]\<rparr>
      | Some _ \<Rightarrow> w)"

text \<open>
  The response to a \<open>HEAD\<close> request carries no body: \<open>net/http\<close> counts the bytes a
  handler passes to \<open>Write\<close> there and drops them. This is what is sent of the response
  of a handler that serves a \<open>HEAD\<close> request.
\<close>

definition HEAD_response :: "response \<Rightarrow> response" where
  "HEAD_response w = w\<lparr>resp_body := []\<rparr>"

text \<open>\<open>r.FormValue(key)\<close>: the first value stored under the key, or the empty string.\<close>

definition FormValue :: "(string \<times> string) list \<Rightarrow> string \<Rightarrow> string" where
  "FormValue f key = (case map_of f key of None \<Rightarrow> [] | Some v \<Rightarrow> v)"

subsection \<open>\<open>strconv\<close> and \<open>fmt\<close>\<close>

text \<open>
  The handlers test the error of \<open>strconv.Atoi\<close> and \<open>strconv.ParseBool\<close> against
  \<open>nil\<close> only, so both return an option: \<open>None\<close> is a non-nil error.
\<close>

definition digit_val :: "char \<Rightarrow> nat option" where
  "digit_val c =
     (let v = (of_char c :: nat) in if 48 \<le> v \<and> v \<le> 57 then Some (v - 48) else None)"

fun parse_digits :: "nat \<Rightarrow> string \<Rightarrow> nat option" where
  "parse_digits acc [] = Some acc"
| "parse_digits acc (c # cs) =
     (case digit_val c of
        None \<Rightarrow> None
      | Some d \<Rightarrow> parse_digits (acc * 10 + d) cs)"

text \<open>
  \<open>strconv.Atoi\<close> on a 64-bit platform: an optional sign, then one or more decimal
  digits, and a value that fits \<open>int\<close>.
\<close>

definition max_int :: nat where
  "max_int = 2 ^ 63 - 1"

definition Atoi :: "string \<Rightarrow> int option" where
  "Atoi s =
     (case s of
        [] \<Rightarrow> None
      | c # t \<Rightarrow>
          (let neg = (c = CHR ''-'');
               ds = (if c = CHR ''-'' \<or> c = CHR ''+'' then t else s)
           in if ds = [] then None
              else (case parse_digits 0 ds of
                      None \<Rightarrow> None
                    | Some n \<Rightarrow>
                        if neg then (if n > max_int + 1 then None else Some (- int n))
                        else (if n > max_int then None else Some (int n)))))"

text \<open>\<open>strconv.ParseBool\<close>: exactly these twelve spellings are accepted.\<close>

definition ParseBool :: "string \<Rightarrow> bool option" where
  "ParseBool str =
     (if str \<in> set [''1'', ''t'', ''T'', ''TRUE'', ''true'', ''True''] then Some True
      else if str \<in> set [''0'', ''f'', ''F'', ''FALSE'', ''false'', ''False''] then Some False
      else None)"

text \<open>The verb \<open>%d\<close> of \<open>fmt.Sprintf\<close> on an \<open>int\<close>.\<close>

definition digit_char :: "nat \<Rightarrow> char" where
  "digit_char d = char_of (48 + d)"

function digits :: "nat \<Rightarrow> string" where
  "digits n = (if n < 10 then [digit_char n] else digits (n div 10) @ [digit_char (n mod 10)])"
  by pat_completeness auto
termination
  by (relation "measure id") auto

declare digits.simps [simp del]

definition fmt_d :: "int \<Rightarrow> string" where
  "fmt_d i = (if i < 0 then CHR ''-'' # digits (nat (- i)) else digits (nat i))"

text \<open>\<open>fmt.Sprintf("%s/todo-item/%d", host, n)\<close>, as Create and Replace call it.\<close>

definition Sprintf_location :: "string \<Rightarrow> int \<Rightarrow> string" where
  "Sprintf_location host n = host @ ''/todo-item/'' @ fmt_d n"

subsection \<open>\<open>encoding/json\<close>\<close>

text \<open>
  The encoder walks a string rune by rune with \<open>utf8.DecodeRuneInString\<close>. For a first
  byte of \<open>0x80\<close> or more, \<open>first\<close> is the table of that function: the length of the
  sequence the byte starts and the range its second byte must lie in. The result of
  \<open>DecodeRuneInString\<close> is the size of the valid sequence at the head of the string, or
  \<open>None\<close> where the function returns \<open>RuneError\<close> with a size of 1 (of 0 on the empty
  string).
\<close>

definition in_bytes :: "nat \<Rightarrow> nat \<Rightarrow> char \<Rightarrow> bool" where
  "in_bytes lo hi c \<longleftrightarrow> lo \<le> (of_char c :: nat) \<and> (of_char c :: nat) \<le> hi"

definition first :: "nat \<Rightarrow> (nat \<times> nat \<times> nat) option" where
  "first x =
     (if 0xC2 \<le> x \<and> x \<le> 0xDF then Some (2, 0x80, 0xBF)
      else if x = 0xE0 then Some (3, 0xA0, 0xBF)
      else if 0xE1 \<le> x \<and> x \<le> 0xEC then Some (3, 0x80, 0xBF)
      else if x = 0xED then Some (3, 0x80, 0x9F)
      else if 0xEE \<le> x \<and> x \<le> 0xEF then Some (3, 0x80, 0xBF)
      else if x = 0xF0 then Some (4, 0x90, 0xBF)
      else if 0xF1 \<le> x \<and> x \<le> 0xF3 then Some (4, 0x80, 0xBF)
      else if x = 0xF4 then Some (4, 0x80, 0x8F)
      else None)"

definition DecodeRuneInString :: "string \<Rightarrow> nat option" where
  "DecodeRuneInString s =
     (case s of
        [] \<Rightarrow> None
      | c # cs \<Rightarrow>
          if (of_char c :: nat) < 0x80 then Some 1
          else
            (case first (of_char c) of
               None \<Rightarrow> None
             | Some (sz, lo, hi) \<Rightarrow>
                 if length s < sz then None
                 else if \<not> in_bytes lo hi (cs ! 0) then None
                 else if sz \<le> 2 then Some 2
                 else if \<not> in_bytes 0x80 0xBF (cs ! 1) then None
                 else if sz \<le> 3 then Some 3
                 else if \<not> in_bytes 0x80 0xBF (cs ! 2) then None
                 else Some 4))"

text \<open>
  The string that the JSON text of a Go string denotes. A byte below \<open>0x80\<close> is written as
  itself or as an escape that denotes it (the quote, the backslash, control characters and
  the characters \<open><\<close>, \<open>>\<close>, \<open>&\<close>), and a valid sequence is copied (U+2028 and U+2029 as
  the escapes that denote them). A byte at which \<open>DecodeRuneInString\<close> reports
  \<open>RuneError\<close> with size 1 is written as the escape of U+FFFD, in UTF-8 the bytes
  \<open>EF BF BD\<close>, and the walk goes on at the next byte.
\<close>

function Encode_string :: "string \<Rightarrow> string" where
  "Encode_string [] = []"
| "Encode_string (c # cs) =
     (if (of_char c :: nat) < 0x80 then c # Encode_string cs
      else (case DecodeRuneInString (c # cs) of
              None \<Rightarrow> [CHR 0xEF, CHR 0xBF, CHR 0xBD] @ Encode_string cs
            | Some n \<Rightarrow> c # take (n - 1) cs @ Encode_string (drop (n - 1) cs)))"
  by pat_completeness auto
termination
  by (relation "measure length") auto

text \<open>The value denoted by what \<open>Encode\<close> writes for an item; a \<open>bool\<close> is written as it is.\<close>

definition Encode_TodoItem :: "TodoItem \<Rightarrow> TodoItem" where
  "Encode_TodoItem item = \<lparr>Content = Encode_string (Content item), Done = Done item\<rparr>"

text \<open>\<open>utf8.ValidString\<close>: the string is a sequence of valid UTF-8 sequences.\<close>

function ValidString :: "string \<Rightarrow> bool" where
  "ValidString [] \<longleftrightarrow> True"
| "ValidString (c # cs) \<longleftrightarrow>
     (if (of_char c :: nat) < 0x80 then ValidString cs
      else (case DecodeRuneInString (c # cs) of
              None \<Rightarrow> False
            | Some n \<Rightarrow> ValidString (drop (n - 1) cs)))"
  by pat_completeness auto
termination
  by (relation "measure length") auto

subsection \<open>The handlers\<close>

text \<open>The four failure responses, each a \<open>WriteHeader\<close> followed by a \<open>Write\<close>.\<close>

definition bad_id :: response where
  "bad_id = Write (Text ''`id` must be of type int'') (WriteHeader 400 new_response)"

definition id_not_found :: response where
  "id_not_found = Write (Text ''`id` not found'') (WriteHeader 404 new_response)"

definition invalid_form :: response where
  "invalid_form = Write (Text ''invalid form'') (WriteHeader 400 new_response)"

definition bad_done :: response where
  "bad_done = Write (Text ''`done` must be of type bool'') (WriteHeader 400 new_response)"

text \<open>The bounds test \<open>id < 0 || id > len(todoItems)-1\<close>.\<close>

definition out_of_range :: "TodoItem list \<Rightarrow> int \<Rightarrow> bool" where
  "out_of_range todoItems i \<longleftrightarrow> i < 0 \<or> i > int (length todoItems) - 1"

definition getTodoItems :: "TodoItem list \<Rightarrow> request \<Rightarrow> response \<times> TodoItem list" where
  "getTodoItems todoItems r =
     (Write (Json_TodoItems (map Encode_TodoItem todoItems)) new_response, todoItems)"

definition getTodoItem :: "TodoItem list \<Rightarrow> request \<Rightarrow> response \<times> TodoItem list" where
  "getTodoItem todoItems r =
     (case Atoi (PathValue r) of
        None \<Rightarrow> (bad_id, todoItems)
      | Some i \<Rightarrow>
          if out_of_range todoItems i then (id_not_found, todoItems)
          else (Write (Json_TodoItem (Encode_TodoItem (todoItems ! nat i))) new_response,
                todoItems))"

definition getTodoItemExists :: "TodoItem list \<Rightarrow> request \<Rightarrow> response \<times> TodoItem list" where
  "getTodoItemExists todoItems r =
     (case Atoi (PathValue r) of
        None \<Rightarrow> (bad_id, todoItems)
      | Some i \<Rightarrow>
          if out_of_range todoItems i then (id_not_found, todoItems)
          else (WriteHeader 200 new_response, todoItems))"

definition createTodoItem :: "TodoItem list \<Rightarrow> request \<Rightarrow> response \<times> TodoItem list" where
  "createTodoItem todoItems r =
     (case Form r of
        None \<Rightarrow> (invalid_form, todoItems)
      | Some f \<Rightarrow>
          (let content = FormValue f ''content'' in
           case ParseBool (FormValue f ''done'') of
             None \<Rightarrow> (bad_done, todoItems)
           | Some d \<Rightarrow>
               (let todoItems' = todoItems @ [\<lparr>Content = content, Done = d\<rparr>];
                    location = Sprintf_location (Host r) (int (length todoItems') - 1)
                in (WriteHeader 201 (Header_Add ''Location'' location new_response),
                    todoItems'))))"

definition replaceTodoItem :: "TodoItem list \<Rightarrow> request \<Rightarrow> response \<times> TodoItem list" where
  "replaceTodoItem todoItems r =
     (case Atoi (PathValue r) of
        None \<Rightarrow> (bad_id, todoItems)
      | Some i \<Rightarrow>
          if out_of_range todoItems i then (id_not_found, todoItems)
          else
            (case Form r of
               None \<Rightarrow> (invalid_form, todoItems)
             | Some f \<Rightarrow>
                 (let content = FormValue f ''content'' in
                  case ParseBool (FormValue f ''done'') of
                    None \<Rightarrow> (bad_done, todoItems)
                  | Some d \<Rightarrow>
                      (let todoItems' = todoItems[nat i := \<lparr>Content = content, Done = d\<rparr>];
                           location = Sprintf_location (Host r) (int (length todoItems') - 1)
                       in (WriteHeader 200 (Header_Add ''Location'' location new_response),
                           todoItems')))))"

text \<open>
  Update writes \<open>todoItems[id].Content\<close> before it looks at \<open>done\<close>, so the slice it
  returns on a malformed \<open>done\<close> is the one after that first write.
\<close>

definition updateTodoItem :: "TodoItem list \<Rightarrow> request \<Rightarrow> response \<times> TodoItem list" where
  "updateTodoItem todoItems r =
     (case Atoi (PathValue r) of
        None \<Rightarrow> (bad_id, todoItems)
      | Some i \<Rightarrow>
          if out_of_range todoItems i then (id_not_found, todoItems)
          else
            (case Form r of
               None \<Rightarrow> (invalid_form, todoItems)
             | Some f \<Rightarrow>
                 (let content = FormValue f ''content'';
                      todoItems1 =
                        (if content \<noteq> [] then
                           todoItems[nat i := (todoItems ! nat i)\<lparr>Content := content\<rparr>]
                         else todoItems);
                      doneStr = FormValue f ''done''
                  in if doneStr \<noteq> [] then
                       (case ParseBool doneStr of
                          None \<Rightarrow> (bad_done, todoItems1)
                        | Some d \<Rightarrow>
                            (WriteHeader 200 new_response,
                             todoItems1[nat i := (todoItems1 ! nat i)\<lparr>Done := d\<rparr>]))
                     else (WriteHeader 200 new_response, todoItems1))))"

text \<open>Delete: \<open>append(todoItems[:id], todoItems[id+1:]...)\<close>.\<close>

definition deleteTodoItem :: "TodoItem list \<Rightarrow> request \<Rightarrow> response \<times> TodoItem list" where
  "deleteTodoItem todoItems r =
     (case Atoi (PathValue r) of
        None \<Rightarrow> (bad_id, todoItems)
      | Some i \<Rightarrow>
          if out_of_range todoItems i then (id_not_found, todoItems)
          else (WriteHeader 200 new_response,
                take (nat i) todoItems @ drop (nat i + 1) todoItems))"

subsection \<open>The router\<close>

text \<open>The seven patterns registered on the \<open>ServeMux\<close>, and a run of requests.\<close>

datatype route =
    GET_todo_items
  | GET_todo_item
  | HEAD_todo_item
  | POST_todo_item
  | PUT_todo_item
  | PATCH_todo_item
  | DELETE_todo_item

fun router :: "route \<Rightarrow> TodoItem list \<Rightarrow> request \<Rightarrow> response \<times> TodoItem list" where
  "router GET_todo_items = getTodoItems"
| "router GET_todo_item = getTodoItem"
| "router HEAD_todo_item = getTodoItemExists"
| "router POST_todo_item = createTodoItem"
| "router PUT_todo_item = replaceTodoItem"
| "router PATCH_todo_item = updateTodoItem"
| "router DELETE_todo_item = deleteTodoItem"

fun serve :: "TodoItem list \<Rightarrow> (route \<times> request) list \<Rightarrow> TodoItem list" where
  "serve todoItems [] = todoItems"
| "serve todoItems ((rt, r) # rest) = serve (snd (router rt todoItems r)) rest"

subsection \<open>The listener goroutine and the panic guard\<close>

text \<open>
  An \<open>error\<close> value is \<open>http.ErrServerClosed\<close> or another error with its message; \<open>None\<close>
  is \<open>nil\<close>. \<open>Error\<close> is the text that \<open>%v\<close> prints for it.
\<close>

datatype error = ErrServerClosed | Other_error string

fun Error :: "error \<Rightarrow> string" where
  "Error ErrServerClosed = ''http: Server closed''"
| "Error (Other_error msg) = msg"

text \<open>
  The end of a process: its exit status and what stands on the error stream, either text
  the program wrote or the report of the Go runtime on a panic that nothing recovered.
\<close>

datatype stderr = Written string | Panic_report error

datatype exit = Exit nat stderr

text \<open>
  Lines 56 to 61, the function started with \<open>go\<close>: \<open>err\<close> is what
  \<open>server.ListenAndServe()\<close> returned, the result is the value passed to \<open>panic\<close>, if any.
\<close>

definition listener :: "error option \<Rightarrow> error option" where
  "listener err = (if err \<noteq> None \<and> err \<noteq> Some ErrServerClosed then err else None)"

text \<open>
  \<open>recoverer\<close>, lines 281 to 286. Its argument is what \<open>recover()\<close> returns there: the
  value of the panic that is unwinding the goroutine whose deferred call this is, and
  \<open>nil\<close> otherwise. The result is how it ends the process, if it does.
\<close>

definition recoverer :: "error option \<Rightarrow> exit option" where
  "recoverer r =
     (case r of
        None \<Rightarrow> None
      | Some v \<Rightarrow> Some (Exit 1 (Written (''unexpected panic occurred: '' @ Error v))))"

text \<open>
  A panic runs the deferred calls of the goroutine that panics, last deferred first, and of
  no other goroutine; the list holds them in that order. A deferred call of this program
  either ends the process (\<open>recoverer\<close> on a panic) or returns without calling \<open>recover\<close>
  (\<open>cancel\<close>), and then the panic goes on. When no deferred call is left, the runtime
  reports the panic on the error stream and ends the process with status 2.
\<close>

fun unwind :: "(error option \<Rightarrow> exit option) list \<Rightarrow> error \<Rightarrow> exit" where
  "unwind [] v = Exit 2 (Panic_report v)"
| "unwind (d # ds) v = (case d (Some v) of Some e \<Rightarrow> e | None \<Rightarrow> unwind ds v)"

text \<open>
  A goroutine with its deferred calls and the panic its function ended in, if any: how it
  ends the process, if it does.
\<close>

definition goroutine :: "(error option \<Rightarrow> exit option) list \<Rightarrow> error option \<Rightarrow> exit option" where
  "goroutine deferred panicked =
     (case panicked of
        None \<Rightarrow> None
      | Some v \<Rightarrow> Some (unwind deferred v))"

text \<open>
  The goroutine of lines 56 to 61 defers nothing: \<open>defer recoverer()\<close> at line 26 is a
  deferred call of the goroutine that runs \<open>main\<close>.
\<close>

definition listener_goroutine :: "error option \<Rightarrow> exit option" where
  "listener_goroutine err = goroutine [] (listener err)"

section \<open>Properties\<close>

subsection \<open>Decimal text round trip\<close>

lemma digit_val_digit_char: "d < 10 \<Longrightarrow> digit_val (digit_char d) = Some d"
  by (simp add: digit_val_def digit_char_def)

lemma digit_val_sign: "digit_val CHR ''-'' = None" "digit_val CHR ''+'' = None"
  by (simp_all add: digit_val_def)

lemma parse_digits_snoc:
  "parse_digits acc (cs @ [c]) =
     (case parse_digits acc cs of
        None \<Rightarrow> None
      | Some m \<Rightarrow> (case digit_val c of None \<Rightarrow> None | Some d \<Rightarrow> Some (m * 10 + d)))"
  by (induction cs arbitrary: acc) (auto split: option.splits)

lemma parse_digits_digits: "parse_digits 0 (digits n) = Some n"
proof (induction n rule: digits.induct)
  case (1 n)
  show ?case
  proof (cases "n < 10")
    case True
    then show ?thesis
      by (subst digits.simps) (simp add: digit_val_digit_char)
  next
    case False
    with 1 have "parse_digits 0 (digits (n div 10)) = Some (n div 10)" by simp
    with False show ?thesis
      by (subst digits.simps) (simp add: parse_digits_snoc digit_val_digit_char)
  qed
qed

lemma digits_inj: "digits m = digits n \<Longrightarrow> m = n"
  by (metis parse_digits_digits option.inject)

lemma digits_not_Nil: "digits n \<noteq> []"
  by (subst digits.simps) simp

lemma digits_hd_digit: "digits n = c # cs \<Longrightarrow> digit_val c \<noteq> None"
  using parse_digits_digits [of n] by (auto split: option.splits)

lemma Atoi_digits: "n \<le> max_int \<Longrightarrow> Atoi (digits n) = Some (int n)"
proof -
  assume le: "n \<le> max_int"
  obtain c cs where ds: "digits n = c # cs"
    using digits_not_Nil [of n] by (cases "digits n") auto
  then have "digit_val c \<noteq> None" by (rule digits_hd_digit)
  then have "c \<noteq> CHR ''-''" "c \<noteq> CHR ''+''"
    using digit_val_sign by auto
  moreover have "parse_digits 0 (c # cs) = Some n"
    using parse_digits_digits [of n] ds by simp
  ultimately show ?thesis
    using le ds unfolding Atoi_def by (simp del: parse_digits.simps)
qed

lemma Atoi_fmt_d: "0 \<le> i \<Longrightarrow> i \<le> int max_int \<Longrightarrow> Atoi (fmt_d i) = Some i"
  using Atoi_digits [of "nat i"] by (simp add: fmt_d_def)

lemma fmt_d_inj_nonneg: "0 \<le> i \<Longrightarrow> 0 \<le> j \<Longrightarrow> fmt_d i = fmt_d j \<Longrightarrow> i = j"
  using digits_inj [of "nat i" "nat j"] by (simp add: fmt_d_def)



subsection \<open>The responses, written out\<close>


lemma id_not_found_eq:
  "id_not_found = \<lparr>resp_header = [], resp_status = Some 404,
                    resp_body = [Text ''`id` not found'']\<rparr>"
  by (simp add: id_not_found_def Write_def WriteHeader_def new_response_def)

lemma invalid_form_eq:
  "invalid_form = \<lparr>resp_header = [], resp_status = Some 400,
                    resp_body = [Text ''invalid form'']\<rparr>"
  by (simp add: invalid_form_def Write_def WriteHeader_def new_response_def)

lemma bad_done_eq:
  "bad_done = \<lparr>resp_header = [], resp_status = Some 400,
                resp_body = [Text ''`done` must be of type bool'']\<rparr>"
  by (simp add: bad_done_def Write_def WriteHeader_def new_response_def)

lemma status_only_eq:
  "WriteHeader code new_response = \<lparr>resp_header = [], resp_status = Some code, resp_body = []\<rparr>"
  by (simp add: WriteHeader_def new_response_def)

lemma located_eq:
  "WriteHeader code (Header_Add k v new_response) =
     \<lparr>resp_header = [(k, v)], resp_status = Some code, resp_body = []\<rparr>"
  by (simp add: WriteHeader_def Header_Add_def new_response_def)

lemma encoded_eq:
  "Write b new_response = \<lparr>resp_header = [], resp_status = Some 200, resp_body = [b]\<rparr>"
  by (simp add: Write_def new_response_def)

lemma in_range_iff: "\<not> out_of_range todoItems i \<longleftrightarrow> 0 \<le> i \<and> i < int (length todoItems)"
  by (auto simp: out_of_range_def)

subsection \<open>Delete\<close>

text \<open>
  Claim C5. For every collection and every index \<open>i\<close> with \<open>0 \<le> i < length\<close>, Delete at
  \<open>i\<close> responds 200, shortens the collection by exactly one item, leaves every item at
  an index below \<open>i\<close> where it was, and moves every item formerly at an index \<open>j > i\<close>
  to index \<open>j - 1\<close>.
\<close>

theorem deleteTodoItem_shifts_down:
  assumes "Atoi (PathValue r) = Some i" and "0 \<le> i" and "i < int (length todoItems)"
  shows "resp_status (fst (deleteTodoItem todoItems r)) = Some 200 \<and>
         length (snd (deleteTodoItem todoItems r)) + 1 = length todoItems \<and>
         (\<forall>j. j < nat i \<longrightarrow> snd (deleteTodoItem todoItems r) ! j = todoItems ! j) \<and>
         (\<forall>j. nat i < j \<and> j < length todoItems \<longrightarrow>
              snd (deleteTodoItem todoItems r) ! (j - 1) = todoItems ! j)"
proof -
  let ?k = "nat i"
  have k: "?k < length todoItems" using assms(2,3) by simp
  have del: "deleteTodoItem todoItems r =
      (WriteHeader 200 new_response, take ?k todoItems @ drop (?k + 1) todoItems)"
    using assms by (simp add: deleteTodoItem_def out_of_range_def)
  have len: "length (take ?k todoItems @ drop (?k + 1) todoItems) + 1 = length todoItems"
    using k by simp
  have before: "(take ?k todoItems @ drop (?k + 1) todoItems) ! j = todoItems ! j"
    if "j < ?k" for j
    using that k by (simp add: nth_append)
  have after: "(take ?k todoItems @ drop (?k + 1) todoItems) ! (j - 1) = todoItems ! j"
    if "?k < j" "j < length todoItems" for j
    using that k by (simp add: nth_append min_def)
  show ?thesis
    unfolding del using len before after by (simp add: status_only_eq)
qed

theorem deleteTodoItem_shifts_down_witness:
  "resp_status (fst (deleteTodoItem
       [\<lparr>Content = ''a'', Done = False\<rparr>, \<lparr>Content = ''b'', Done = True\<rparr>,
        \<lparr>Content = ''c'', Done = False\<rparr>]
       \<lparr>PathValue = ''1'', Host = [], Form = None\<rparr>)) = Some 200 \<and>
   snd (deleteTodoItem
       [\<lparr>Content = ''a'', Done = False\<rparr>, \<lparr>Content = ''b'', Done = True\<rparr>,
        \<lparr>Content = ''c'', Done = False\<rparr>]
       \<lparr>PathValue = ''1'', Host = [], Form = None\<rparr>) ! 0 = \<lparr>Content = ''a'', Done = False\<rparr> \<and>
   snd (deleteTodoItem
       [\<lparr>Content = ''a'', Done = False\<rparr>, \<lparr>Content = ''b'', Done = True\<rparr>,
        \<lparr>Content = ''c'', Done = False\<rparr>]
       \<lparr>PathValue = ''1'', Host = [], Form = None\<rparr>) ! 1 = \<lparr>Content = ''c'', Done = False\<rparr> \<and>
   length (snd (deleteTodoItem
       [\<lparr>Content = ''a'', Done = False\<rparr>, \<lparr>Content = ''b'', Done = True\<rparr>,
        \<lparr>Content = ''c'', Done = False\<rparr>]
       \<lparr>PathValue = ''1'', Host = [], Form = None\<rparr>)) + 1 = 3"
proof -
  let ?xs = "[\<lparr>Content = ''a'', Done = False\<rparr>, \<lparr>Content = ''b'', Done = True\<rparr>,
        \<lparr>Content = ''c'', Done = False\<rparr>]"
  let ?r = "\<lparr>PathValue = ''1'', Host = [], Form = None\<rparr>"
  have p: "Atoi (PathValue ?r) = Some 1"
    by (simp add: Atoi_def digit_val_def max_int_def)
  have q: "(0::int) \<le> 1" "1 < int (length ?xs)" by simp_all
  note th = deleteTodoItem_shifts_down [OF p q]
  from th have a: "j < nat 1 \<Longrightarrow> snd (deleteTodoItem ?xs ?r) ! j = ?xs ! j" for j
    by blast
  from th have b: "nat 1 < j \<Longrightarrow> j < length ?xs \<Longrightarrow>
      snd (deleteTodoItem ?xs ?r) ! (j - 1) = ?xs ! j" for j
    by blast
  from th have c: "resp_status (fst (deleteTodoItem ?xs ?r)) = Some 200"
    and d: "length (snd (deleteTodoItem ?xs ?r)) + 1 = length ?xs"
    by blast+
  show ?thesis using a [of 0] b [of 2] c d by simp
qed

subsection \<open>Create and Replace on a valid request\<close>

lemma replaceTodoItem_ok:
  assumes "Atoi (PathValue r) = Some i" and "0 \<le> i" and "i < int (length todoItems)"
    and "Form r = Some f" and "ParseBool (FormValue f ''done'') = Some d"
  shows "replaceTodoItem todoItems r =
     (\<lparr>resp_header = [(''Location'', Sprintf_location (Host r) (int (length todoItems) - 1))],
       resp_status = Some 200, resp_body = []\<rparr>,
      todoItems[nat i := \<lparr>Content = FormValue f ''content'', Done = d\<rparr>])"
  using assms by (simp add: replaceTodoItem_def out_of_range_def located_eq)

lemma createTodoItem_ok:
  assumes "Form r = Some f" and "ParseBool (FormValue f ''done'') = Some d"
  shows "createTodoItem todoItems r =
     (\<lparr>resp_header = [(''Location'', Sprintf_location (Host r) (int (length todoItems)))],
       resp_status = Some 201, resp_body = []\<rparr>,
      todoItems @ [\<lparr>Content = FormValue f ''content'', Done = d\<rparr>])"
  using assms by (simp add: createTodoItem_def located_eq)

lemma Sprintf_location_inj:
  "0 \<le> i \<Longrightarrow> 0 \<le> j \<Longrightarrow> Sprintf_location h i = Sprintf_location h j \<Longrightarrow> i = j"
  by (auto simp: Sprintf_location_def dest: fmt_d_inj_nonneg)

lemma ParseBool_true: "ParseBool ''true'' = Some True"
  by (simp add: ParseBool_def)

lemma ParseBool_false: "ParseBool ''false'' = Some False"
  by (simp add: ParseBool_def)

lemma Atoi_0: "Atoi ''0'' = Some 0"
  by (simp add: Atoi_def digit_val_def max_int_def)

lemma Atoi_1: "Atoi ''1'' = Some 1"
  by (simp add: Atoi_def digit_val_def max_int_def)

lemma digit_char_eqI: "(of_char c :: nat) = 48 + d \<Longrightarrow> digit_char d = c"
  unfolding digit_char_def by (metis char_of_char)

lemma digit_char_0: "digit_char 0 = CHR ''0''"
  by (rule digit_char_eqI) simp

lemma digit_char_1: "digit_char 1 = CHR ''1''"
  by (rule digit_char_eqI) simp

lemma fmt_d_0: "fmt_d 0 = ''0''"
  by (simp add: fmt_d_def digits.simps digit_char_0)

lemma fmt_d_1: "fmt_d 1 = ''1''"
  using digit_char_1 by (simp add: fmt_d_def digits.simps)

subsection \<open>Replace\<close>

text \<open>
  Claim C10. For every valid index \<open>id\<close> and well-formed \<open>content\<close>/\<open>done\<close> body, Replace
  leaves the length of the collection unchanged and leaves every item at an index other
  than \<open>id\<close> unchanged; only the item at \<open>id\<close> is overwritten, with the new pair.
\<close>

theorem replaceTodoItem_frame:
  assumes "Atoi (PathValue r) = Some i" and "0 \<le> i" and "i < int (length todoItems)"
    and "Form r = Some f" and "ParseBool (FormValue f ''done'') = Some d"
  shows "length (snd (replaceTodoItem todoItems r)) = length todoItems \<and>
         (\<forall>j. j < length todoItems \<and> j \<noteq> nat i \<longrightarrow>
              snd (replaceTodoItem todoItems r) ! j = todoItems ! j) \<and>
         snd (replaceTodoItem todoItems r) ! nat i =
           \<lparr>Content = FormValue f ''content'', Done = d\<rparr>"
proof -
  have "nat i < length todoItems" using assms(2,3) by simp
  then show ?thesis
    unfolding replaceTodoItem_ok [OF assms] by simp
qed

theorem replaceTodoItem_frame_witness:
  "snd (replaceTodoItem
      [\<lparr>Content = ''a'', Done = False\<rparr>, \<lparr>Content = ''b'', Done = False\<rparr>]
      \<lparr>PathValue = ''0'', Host = [],
       Form = Some [(''content'', ''z''), (''done'', ''true'')]\<rparr>) =
   [\<lparr>Content = ''z'', Done = True\<rparr>, \<lparr>Content = ''b'', Done = False\<rparr>]"
proof -
  let ?xs = "[\<lparr>Content = ''a'', Done = False\<rparr>, \<lparr>Content = ''b'', Done = False\<rparr>]"
  let ?f = "[(''content'', ''z''), (''done'', ''true'')]"
  let ?r = "\<lparr>PathValue = ''0'', Host = [], Form = Some ?f\<rparr>"
  have p: "Atoi (PathValue ?r) = Some 0" by (simp add: Atoi_0)
  have q: "(0::int) \<le> 0" "0 < int (length ?xs)" "Form ?r = Some ?f" by simp_all
  have b: "ParseBool (FormValue ?f ''done'') = Some True"
    by (simp add: FormValue_def ParseBool_true)
  note th = replaceTodoItem_frame [OF p q b]
  from th have len: "length (snd (replaceTodoItem ?xs ?r)) = 2" by simp
  from th have one: "snd (replaceTodoItem ?xs ?r) ! 1 = ?xs ! 1" by simp
  from th have zero: "snd (replaceTodoItem ?xs ?r) ! 0 = \<lparr>Content = ''z'', Done = True\<rparr>"
    by (simp add: FormValue_def)
  show ?thesis
  proof (rule nth_equalityI)
    show "length (snd (replaceTodoItem ?xs ?r)) =
          length [\<lparr>Content = ''z'', Done = True\<rparr>, \<lparr>Content = ''b'', Done = False\<rparr>]"
      using len by simp
  next
    fix k assume "k < length (snd (replaceTodoItem ?xs ?r))"
    then have "k = 0 \<or> k = 1" using len by auto
    then show "snd (replaceTodoItem ?xs ?r) ! k =
        [\<lparr>Content = ''z'', Done = True\<rparr>, \<lparr>Content = ''b'', Done = False\<rparr>] ! k"
      using zero one by auto
  qed
qed

text \<open>
  Claim C3. On every successful Replace the \<open>Location\<close> header is built the way Create
  builds it: its path index is the length of the collection after the operation minus
  one, not the replaced \<open>id\<close>. When \<open>id\<close> is not the last index, the header is therefore
  not the one that would name \<open>id\<close>, and the item at the index it names is not the one
  modified: it is as it was before the request.
\<close>

theorem replaceTodoItem_Location:
  assumes "Atoi (PathValue r) = Some i" and "0 \<le> i" and "i < int (length todoItems)"
    and "Form r = Some f" and "ParseBool (FormValue f ''done'') = Some d"
  shows "resp_status (fst (replaceTodoItem todoItems r)) = Some 200 \<and>
         resp_header (fst (replaceTodoItem todoItems r)) =
           [(''Location'',
             Sprintf_location (Host r) (int (length (snd (replaceTodoItem todoItems r))) - 1))] \<and>
         resp_header (fst (createTodoItem todoItems r)) =
           [(''Location'',
             Sprintf_location (Host r) (int (length (snd (createTodoItem todoItems r))) - 1))] \<and>
         (i \<noteq> int (length todoItems) - 1 \<longrightarrow>
            resp_header (fst (replaceTodoItem todoItems r)) \<noteq>
              [(''Location'', Sprintf_location (Host r) i)] \<and>
            snd (replaceTodoItem todoItems r) ! (length todoItems - 1) =
              todoItems ! (length todoItems - 1))"
proof -
  have last: "0 \<le> int (length todoItems) - 1" using assms(2,3) by linarith
  have differs: "Sprintf_location (Host r) (int (length todoItems) - 1) \<noteq>
        Sprintf_location (Host r) i"
    if "i \<noteq> int (length todoItems) - 1"
    using Sprintf_location_inj [OF last assms(2)] that by blast
  have untouched: "todoItems[nat i := x] ! (length todoItems - 1) =
        todoItems ! (length todoItems - 1)"
    if "i \<noteq> int (length todoItems) - 1" for x
  proof -
    have "nat i \<noteq> length todoItems - 1" using that assms(2,3) by linarith
    then show ?thesis by simp
  qed
  show ?thesis
    unfolding replaceTodoItem_ok [OF assms] createTodoItem_ok [OF assms(4,5)]
    using differs untouched by simp
qed

theorem replaceTodoItem_Location_witness:
  "resp_header (fst (replaceTodoItem
      [\<lparr>Content = ''a'', Done = False\<rparr>, \<lparr>Content = ''b'', Done = False\<rparr>]
      \<lparr>PathValue = ''0'', Host = ''h'',
       Form = Some [(''content'', ''z''), (''done'', ''true'')]\<rparr>)) =
     [(''Location'', ''h/todo-item/1'')] \<and>
   resp_header (fst (replaceTodoItem
      [\<lparr>Content = ''a'', Done = False\<rparr>, \<lparr>Content = ''b'', Done = False\<rparr>]
      \<lparr>PathValue = ''0'', Host = ''h'',
       Form = Some [(''content'', ''z''), (''done'', ''true'')]\<rparr>)) \<noteq>
     [(''Location'', ''h/todo-item/0'')] \<and>
   snd (replaceTodoItem
      [\<lparr>Content = ''a'', Done = False\<rparr>, \<lparr>Content = ''b'', Done = False\<rparr>]
      \<lparr>PathValue = ''0'', Host = ''h'',
       Form = Some [(''content'', ''z''), (''done'', ''true'')]\<rparr>) ! 1 =
     \<lparr>Content = ''b'', Done = False\<rparr>"
proof -
  let ?xs = "[\<lparr>Content = ''a'', Done = False\<rparr>, \<lparr>Content = ''b'', Done = False\<rparr>]"
  let ?f = "[(''content'', ''z''), (''done'', ''true'')]"
  let ?r = "\<lparr>PathValue = ''0'', Host = ''h'', Form = Some ?f\<rparr>"
  have p: "Atoi (PathValue ?r) = Some 0" by (simp add: Atoi_0)
  have q: "(0::int) \<le> 0" "0 < int (length ?xs)" "Form ?r = Some ?f" by simp_all
  have b: "ParseBool (FormValue ?f ''done'') = Some True"
    by (simp add: FormValue_def ParseBool_true)
  note th = replaceTodoItem_Location [OF p q b]
  from th have len: "length (snd (replaceTodoItem ?xs ?r)) = 2"
    using replaceTodoItem_ok [OF p q b] by simp
  from th show ?thesis
    by (simp add: len Sprintf_location_def fmt_d_0 fmt_d_1)
qed

subsection \<open>Create, then Read\<close>

lemma getTodoItem_ok:
  assumes "Atoi (PathValue r) = Some i" and "0 \<le> i" and "i < int (length todoItems)"
  shows "getTodoItem todoItems r =
     (\<lparr>resp_header = [], resp_status = Some 200,
        resp_body = [Json_TodoItem (Encode_TodoItem (todoItems ! nat i))]\<rparr>, todoItems)"
  using assms by (simp add: getTodoItem_def out_of_range_def encoded_eq)

lemma Encode_string_valid: "ValidString s \<Longrightarrow> Encode_string s = s"
  by (induction s rule: ValidString.induct) (auto split: option.splits if_splits)

lemma Encode_string_invalid_byte: "Encode_string [CHR 0xFF] = [CHR 0xEF, CHR 0xBF, CHR 0xBD]"
  by (simp add: DecodeRuneInString_def first_def)

text \<open>
  Claim C4 says that for every well-formed \<open>content\<close>/\<open>done\<close> pair a Read after Create
  returns the same pair. Create takes any bytes as \<open>content\<close>; for the single byte \<open>FF\<close>,
  which is not valid UTF-8, the item is stored with that byte and the body of Read carries
  U+FFFD in its place.
\<close>

theorem createTodoItem_then_getTodoItem_counterexample:
  "snd (createTodoItem []
          \<lparr>PathValue = [], Host = [],
           Form = Some [(''content'', [CHR 0xFF]), (''done'', ''false'')]\<rparr>) =
     [\<lparr>Content = [CHR 0xFF], Done = False\<rparr>] \<and>
   resp_body (fst (getTodoItem
          (snd (createTodoItem []
             \<lparr>PathValue = [], Host = [],
              Form = Some [(''content'', [CHR 0xFF]), (''done'', ''false'')]\<rparr>))
          \<lparr>PathValue = ''0'', Host = [], Form = None\<rparr>)) =
     [Json_TodoItem \<lparr>Content = [CHR 0xEF, CHR 0xBF, CHR 0xBD], Done = False\<rparr>] \<and>
   resp_body (fst (getTodoItem
          (snd (createTodoItem []
             \<lparr>PathValue = [], Host = [],
              Form = Some [(''content'', [CHR 0xFF]), (''done'', ''false'')]\<rparr>))
          \<lparr>PathValue = ''0'', Host = [], Form = None\<rparr>)) \<noteq>
     [Json_TodoItem \<lparr>Content = [CHR 0xFF], Done = False\<rparr>]"
proof -
  let ?f = "[(''content'', [CHR 0xFF]), (''done'', ''false'')]"
  let ?r = "\<lparr>PathValue = [], Host = [], Form = Some ?f\<rparr>"
  let ?r' = "\<lparr>PathValue = ''0'', Host = [], Form = None\<rparr>"
  have b: "ParseBool (FormValue ?f ''done'') = Some False"
    by (simp add: FormValue_def ParseBool_false)
  have stored: "snd (createTodoItem [] ?r) = [\<lparr>Content = [CHR 0xFF], Done = False\<rparr>]"
    using createTodoItem_ok [of ?r ?f False "[]"] b by (simp add: FormValue_def)
  have "getTodoItem [\<lparr>Content = [CHR 0xFF], Done = False\<rparr>] ?r' =
      (\<lparr>resp_header = [], resp_status = Some 200,
         resp_body = [Json_TodoItem
           (Encode_TodoItem ([\<lparr>Content = [CHR 0xFF], Done = False\<rparr>] ! nat 0))]\<rparr>,
       [\<lparr>Content = [CHR 0xFF], Done = False\<rparr>])"
    by (rule getTodoItem_ok) (simp_all add: Atoi_0)
  then have read: "resp_body (fst (getTodoItem [\<lparr>Content = [CHR 0xFF], Done = False\<rparr>] ?r')) =
      [Json_TodoItem \<lparr>Content = [CHR 0xEF, CHR 0xBF, CHR 0xBD], Done = False\<rparr>]"
    by (simp add: Encode_TodoItem_def Encode_string_invalid_byte del: Encode_string.simps)
  show ?thesis
    unfolding stored read by simp
qed

text \<open>
  Claim C4, amended. For every collection and every well-formed \<open>content\<close>/\<open>done\<close> pair,
  Create appends the new item at the index equal to the prior length and responds 201
  Created with a \<open>Location\<close> header that references that index. A Read at that index (the
  path segment being the index as the header prints it) then returns the same \<open>done\<close>, and
  the \<open>content\<close> with U+FFFD in place of every byte that is not part of a valid UTF-8
  sequence; for a \<open>content\<close> that is valid UTF-8 it returns the same pair. The length of a
  Go slice fits \<open>int\<close>, which is the third hypothesis.
\<close>

theorem createTodoItem_then_getTodoItem_utf8:
  assumes "Form r = Some f" and "ParseBool (FormValue f ''done'') = Some d"
    and "length todoItems \<le> max_int"
    and "PathValue r' = fmt_d (int (length todoItems))"
  shows "snd (createTodoItem todoItems r) =
           todoItems @ [\<lparr>Content = FormValue f ''content'', Done = d\<rparr>] \<and>
         snd (createTodoItem todoItems r) ! length todoItems =
           \<lparr>Content = FormValue f ''content'', Done = d\<rparr> \<and>
         fst (createTodoItem todoItems r) =
           \<lparr>resp_header = [(''Location'', Host r @ ''/todo-item/'' @ fmt_d (int (length todoItems)))],
            resp_status = Some 201, resp_body = []\<rparr> \<and>
         getTodoItem (snd (createTodoItem todoItems r)) r' =
           (\<lparr>resp_header = [], resp_status = Some 200,
              resp_body = [Json_TodoItem
                \<lparr>Content = Encode_string (FormValue f ''content''), Done = d\<rparr>]\<rparr>,
            snd (createTodoItem todoItems r)) \<and>
         (ValidString (FormValue f ''content'') \<longrightarrow>
            getTodoItem (snd (createTodoItem todoItems r)) r' =
              (\<lparr>resp_header = [], resp_status = Some 200,
                 resp_body = [Json_TodoItem \<lparr>Content = FormValue f ''content'', Done = d\<rparr>]\<rparr>,
               snd (createTodoItem todoItems r)))"
proof -
  let ?new = "\<lparr>Content = FormValue f ''content'', Done = d\<rparr>"
  have parse: "Atoi (PathValue r') = Some (int (length todoItems))"
    using assms(3,4) by (simp add: Atoi_fmt_d)
  have "getTodoItem (todoItems @ [?new]) r' =
      (\<lparr>resp_header = [], resp_status = Some 200,
         resp_body = [Json_TodoItem
           (Encode_TodoItem ((todoItems @ [?new]) ! nat (int (length todoItems))))]\<rparr>,
       todoItems @ [?new])"
    using parse by (rule getTodoItem_ok) simp_all
  then have read: "getTodoItem (todoItems @ [?new]) r' =
      (\<lparr>resp_header = [], resp_status = Some 200,
         resp_body = [Json_TodoItem
           \<lparr>Content = Encode_string (FormValue f ''content''), Done = d\<rparr>]\<rparr>,
       todoItems @ [?new])"
    by (simp add: Encode_TodoItem_def)
  show ?thesis
    unfolding createTodoItem_ok [OF assms(1,2)]
    by (simp add: read Sprintf_location_def Encode_string_valid)
qed

theorem createTodoItem_then_getTodoItem_utf8_witness:
  "createTodoItem [] \<lparr>PathValue = [], Host = [],
       Form = Some [(''content'', ''buy milk''), (''done'', ''false'')]\<rparr> =
     (\<lparr>resp_header = [(''Location'', ''/todo-item/0'')], resp_status = Some 201, resp_body = []\<rparr>,
      [\<lparr>Content = ''buy milk'', Done = False\<rparr>]) \<and>
   getTodoItem [\<lparr>Content = ''buy milk'', Done = False\<rparr>]
       \<lparr>PathValue = ''0'', Host = [], Form = None\<rparr> =
     (\<lparr>resp_header = [], resp_status = Some 200,
        resp_body = [Json_TodoItem \<lparr>Content = ''buy milk'', Done = False\<rparr>]\<rparr>,
      [\<lparr>Content = ''buy milk'', Done = False\<rparr>])"
proof -
  let ?f = "[(''content'', ''buy milk''), (''done'', ''false'')]"
  let ?r = "\<lparr>PathValue = [], Host = [], Form = Some ?f\<rparr>"
  let ?r' = "\<lparr>PathValue = ''0'', Host = [], Form = None\<rparr>"
  have a: "Form ?r = Some ?f" by simp
  have b: "ParseBool (FormValue ?f ''done'') = Some False"
    by (simp add: FormValue_def ParseBool_false)
  have c: "length ([] :: TodoItem list) \<le> max_int" by simp
  have d: "PathValue ?r' = fmt_d (int (length ([] :: TodoItem list)))"
    by (simp add: fmt_d_0)
  have content: "FormValue ?f ''content'' = ''buy milk''" by (simp add: FormValue_def)
  have valid: "ValidString ''buy milk''" by simp
  note th = createTodoItem_then_getTodoItem_utf8 [OF a b c d, unfolded content]
  have s: "snd (createTodoItem [] ?r) = [\<lparr>Content = ''buy milk'', Done = False\<rparr>]"
    using th [THEN conjunct1] by simp
  have w: "fst (createTodoItem [] ?r) =
      \<lparr>resp_header = [(''Location'', ''/todo-item/0'')], resp_status = Some 201, resp_body = []\<rparr>"
    using th [THEN conjunct2, THEN conjunct2, THEN conjunct1] by (simp add: fmt_d_0)
  note g = th [THEN conjunct2, THEN conjunct2, THEN conjunct2, THEN conjunct2, THEN mp,
      OF valid, unfolded s]
  show ?thesis
    using s w g by (simp add: prod_eq_iff)
qed

subsection \<open>Update\<close>

lemma TodoItem_update_Done: "x\<lparr>Done := d\<rparr> = \<lparr>Content = Content x, Done = d\<rparr>"
  by (cases x) simp

lemma TodoItem_update_Content: "x\<lparr>Content := c\<rparr> = \<lparr>Content = c, Done = Done x\<rparr>"
  by (cases x) simp

lemma FormValue_absent: "map_of f key \<in> {None, Some []} \<Longrightarrow> FormValue f key = []"
  by (auto simp: FormValue_def)

lemma updateTodoItem_valid:
  assumes "Atoi (PathValue r) = Some i" and "0 \<le> i" and "i < int (length todoItems)"
    and "Form r = Some f"
  shows "updateTodoItem todoItems r =
     (let content = FormValue f ''content'';
          todoItems1 =
            (if content \<noteq> [] then
               todoItems[nat i := (todoItems ! nat i)\<lparr>Content := content\<rparr>]
             else todoItems);
          doneStr = FormValue f ''done''
      in if doneStr \<noteq> [] then
           (case ParseBool doneStr of
              None \<Rightarrow> (bad_done, todoItems1)
            | Some d \<Rightarrow>
                (WriteHeader 200 new_response,
                 todoItems1[nat i := (todoItems1 ! nat i)\<lparr>Done := d\<rparr>]))
         else (WriteHeader 200 new_response, todoItems1))"
  using assms by (simp add: updateTodoItem_def out_of_range_def)

text \<open>
  Claim C6. For every item at a valid index, an Update that omits a field or supplies it
  as the empty string leaves that field of the item as it was. In particular an Update
  that supplies only \<open>done=true\<close> keeps the item's \<open>Content\<close>, and an Update that supplies
  only a non-empty \<open>content\<close> keeps the item's \<open>Done\<close>.
\<close>

theorem updateTodoItem_keeps_absent_field:
  assumes "Atoi (PathValue r) = Some i" and "0 \<le> i" and "i < int (length todoItems)"
    and "Form r = Some f"
  shows "(map_of f ''content'' \<in> {None, Some []} \<longrightarrow>
            Content (snd (updateTodoItem todoItems r) ! nat i) = Content (todoItems ! nat i)) \<and>
         (map_of f ''done'' \<in> {None, Some []} \<longrightarrow>
            Done (snd (updateTodoItem todoItems r) ! nat i) = Done (todoItems ! nat i)) \<and>
         (f = [(''done'', ''true'')] \<longrightarrow>
            updateTodoItem todoItems r =
              (\<lparr>resp_header = [], resp_status = Some 200, resp_body = []\<rparr>,
               todoItems[nat i := \<lparr>Content = Content (todoItems ! nat i), Done = True\<rparr>])) \<and>
         (\<forall>c. c \<noteq> [] \<and> f = [(''content'', c)] \<longrightarrow>
            updateTodoItem todoItems r =
              (\<lparr>resp_header = [], resp_status = Some 200, resp_body = []\<rparr>,
               todoItems[nat i := \<lparr>Content = c, Done = Done (todoItems ! nat i)\<rparr>]))"
proof -
  have k: "nat i < length todoItems" using assms(2,3) by simp
  note upd = updateTodoItem_valid [OF assms]
  have content: "Content (snd (updateTodoItem todoItems r) ! nat i) = Content (todoItems ! nat i)"
    if "map_of f ''content'' \<in> {None, Some []}"
    using FormValue_absent [OF that] k unfolding upd
    by (simp add: Let_def split: option.splits)
  have done_kept: "Done (snd (updateTodoItem todoItems r) ! nat i) = Done (todoItems ! nat i)"
    if "map_of f ''done'' \<in> {None, Some []}"
    using FormValue_absent [OF that] k unfolding upd
    by (simp add: Let_def)
  have only_done: "updateTodoItem todoItems r =
      (\<lparr>resp_header = [], resp_status = Some 200, resp_body = []\<rparr>,
       todoItems[nat i := \<lparr>Content = Content (todoItems ! nat i), Done = True\<rparr>])"
    if "f = [(''done'', ''true'')]"
    unfolding upd that
    by (simp add: FormValue_def ParseBool_true status_only_eq TodoItem_update_Done)
  have only_content: "updateTodoItem todoItems r =
      (\<lparr>resp_header = [], resp_status = Some 200, resp_body = []\<rparr>,
       todoItems[nat i := \<lparr>Content = c, Done = Done (todoItems ! nat i)\<rparr>])"
    if "c \<noteq> []" "f = [(''content'', c)]" for c
    unfolding upd that(2) using that(1)
    by (simp add: FormValue_def status_only_eq TodoItem_update_Content)
  show ?thesis
    using content done_kept only_done only_content by blast
qed


theorem updateTodoItem_keeps_absent_field_witness:
  "updateTodoItem [\<lparr>Content = ''buy milk'', Done = False\<rparr>]
       \<lparr>PathValue = ''0'', Host = [], Form = Some [(''done'', ''true'')]\<rparr> =
     (\<lparr>resp_header = [], resp_status = Some 200, resp_body = []\<rparr>,
      [\<lparr>Content = ''buy milk'', Done = True\<rparr>]) \<and>
   Content (snd (updateTodoItem [\<lparr>Content = ''buy milk'', Done = False\<rparr>]
       \<lparr>PathValue = ''0'', Host = [], Form = Some [(''done'', ''true'')]\<rparr>) ! 0) = ''buy milk'' \<and>
   updateTodoItem [\<lparr>Content = ''buy milk'', Done = False\<rparr>]
       \<lparr>PathValue = ''0'', Host = [], Form = Some [(''content'', ''tea'')]\<rparr> =
     (\<lparr>resp_header = [], resp_status = Some 200, resp_body = []\<rparr>,
      [\<lparr>Content = ''tea'', Done = False\<rparr>]) \<and>
   Done (snd (updateTodoItem [\<lparr>Content = ''buy milk'', Done = False\<rparr>]
       \<lparr>PathValue = ''0'', Host = [], Form = Some [(''content'', ''tea'')]\<rparr>) ! 0) = False"
proof -
  let ?xs = "[\<lparr>Content = ''buy milk'', Done = False\<rparr>]"
  let ?f1 = "[(''done'', ''true'')]"
  let ?f2 = "[(''content'', ''tea'')]"
  let ?r1 = "\<lparr>PathValue = ''0'', Host = [], Form = Some ?f1\<rparr>"
  let ?r2 = "\<lparr>PathValue = ''0'', Host = [], Form = Some ?f2\<rparr>"
  have p1: "Atoi (PathValue ?r1) = Some 0" and p2: "Atoi (PathValue ?r2) = Some 0"
    by (simp_all add: Atoi_0)
  have q: "(0::int) \<le> 0" "0 < int (length ?xs)" by simp_all
  have f1: "Form ?r1 = Some ?f1" and f2: "Form ?r2 = Some ?f2" by simp_all
  note t1 = updateTodoItem_keeps_absent_field [OF p1 q f1]
  note t2 = updateTodoItem_keeps_absent_field [OF p2 q f2]
  have a: "updateTodoItem ?xs ?r1 =
      (\<lparr>resp_header = [], resp_status = Some 200, resp_body = []\<rparr>,
       [\<lparr>Content = ''buy milk'', Done = True\<rparr>])"
    using t1 by simp
  have b: "Content (snd (updateTodoItem ?xs ?r1) ! 0) = ''buy milk''"
    using t1 [THEN conjunct1] by simp
  have c: "updateTodoItem ?xs ?r2 =
      (\<lparr>resp_header = [], resp_status = Some 200, resp_body = []\<rparr>,
       [\<lparr>Content = ''tea'', Done = False\<rparr>])"
    using t2 [THEN conjunct2, THEN conjunct2, THEN conjunct2, THEN spec, of "''tea''"] by simp
  have d: "Done (snd (updateTodoItem ?xs ?r2) ! 0) = False"
    using t2 [THEN conjunct2, THEN conjunct1] by simp
  from a b c d show ?thesis by blast
qed

subsection \<open>Ids that are out of range or not integers\<close>

lemma not_found:
  assumes "Atoi (PathValue r) = Some i" and "i < 0 \<or> int (length todoItems) \<le> i"
  shows "getTodoItem todoItems r = (id_not_found, todoItems)"
    and "getTodoItemExists todoItems r = (id_not_found, todoItems)"
    and "replaceTodoItem todoItems r = (id_not_found, todoItems)"
    and "updateTodoItem todoItems r = (id_not_found, todoItems)"
    and "deleteTodoItem todoItems r = (id_not_found, todoItems)"
proof -
  have "out_of_range todoItems i"
    using assms(2) by (auto simp: out_of_range_def)
  with assms(1) show "getTodoItem todoItems r = (id_not_found, todoItems)"
    and "getTodoItemExists todoItems r = (id_not_found, todoItems)"
    and "replaceTodoItem todoItems r = (id_not_found, todoItems)"
    and "updateTodoItem todoItems r = (id_not_found, todoItems)"
    and "deleteTodoItem todoItems r = (id_not_found, todoItems)"
    by (simp_all add: getTodoItem_def getTodoItemExists_def replaceTodoItem_def
        updateTodoItem_def deleteTodoItem_def)
qed


text \<open>
  Claim C7. In every collection state that a sequence of requests reaches from the empty
  collection, and for every index \<open>i\<close> with \<open>i < 0\<close> or \<open>i \<ge> length\<close> that the path
  segment parses to, Read, the Existence check, Update and Delete answer 404 Not Found;
  Read, Update and Delete do so with the body \<open>`id` not found\<close>, and none of them changes
  the collection. The empty collection is the case of the empty history.
\<close>

theorem out_of_range_is_404:
  assumes "todoItems = serve [] history"
    and "Atoi (PathValue r) = Some i"
    and "i < 0 \<or> int (length todoItems) \<le> i"
  shows "getTodoItem todoItems r =
           (\<lparr>resp_header = [], resp_status = Some 404,
              resp_body = [Text ''`id` not found'']\<rparr>, todoItems) \<and>
         resp_status (fst (getTodoItemExists todoItems r)) = Some 404 \<and>
         updateTodoItem todoItems r =
           (\<lparr>resp_header = [], resp_status = Some 404,
              resp_body = [Text ''`id` not found'']\<rparr>, todoItems) \<and>
         deleteTodoItem todoItems r =
           (\<lparr>resp_header = [], resp_status = Some 404,
              resp_body = [Text ''`id` not found'']\<rparr>, todoItems)"
  using not_found [OF assms(2,3)] by (simp add: id_not_found_eq)

theorem out_of_range_is_404_witness:
  "getTodoItem [] \<lparr>PathValue = ''0'', Host = [], Form = None\<rparr> =
     (\<lparr>resp_header = [], resp_status = Some 404, resp_body = [Text ''`id` not found'']\<rparr>, []) \<and>
   resp_status (fst (getTodoItemExists [] \<lparr>PathValue = ''0'', Host = [], Form = None\<rparr>)) =
     Some 404 \<and>
   updateTodoItem [] \<lparr>PathValue = ''0'', Host = [], Form = None\<rparr> =
     (\<lparr>resp_header = [], resp_status = Some 404, resp_body = [Text ''`id` not found'']\<rparr>, []) \<and>
   deleteTodoItem [] \<lparr>PathValue = ''0'', Host = [], Form = None\<rparr> =
     (\<lparr>resp_header = [], resp_status = Some 404, resp_body = [Text ''`id` not found'']\<rparr>, []) \<and>
   deleteTodoItem
       (serve [] [(POST_todo_item, \<lparr>PathValue = [], Host = [],
                     Form = Some [(''content'', ''buy milk''), (''done'', ''false'')]\<rparr>),
                  (DELETE_todo_item, \<lparr>PathValue = ''0'', Host = [], Form = None\<rparr>)])
       \<lparr>PathValue = ''0'', Host = [], Form = None\<rparr> =
     (\<lparr>resp_header = [], resp_status = Some 404, resp_body = [Text ''`id` not found'']\<rparr>, [])"
proof -
  let ?r = "\<lparr>PathValue = ''0'', Host = [], Form = None\<rparr>"
  let ?post = "\<lparr>PathValue = [], Host = [],
      Form = Some [(''content'', ''buy milk''), (''done'', ''false'')]\<rparr>"
  let ?h = "[(POST_todo_item, ?post), (DELETE_todo_item, ?r)]"
  have p: "Atoi (PathValue ?r) = Some 0" by (simp add: Atoi_0)
  have e: "([] :: TodoItem list) = serve [] []" by simp
  have o: "(0::int) < 0 \<or> int (length ([] :: TodoItem list)) \<le> 0" by simp
  have post: "createTodoItem [] ?post =
      (\<lparr>resp_header = [(''Location'', Sprintf_location [] 0)], resp_status = Some 201,
         resp_body = []\<rparr>, [\<lparr>Content = ''buy milk'', Done = False\<rparr>])"
    using createTodoItem_ok [of ?post "[(''content'', ''buy milk''), (''done'', ''false'')]" False "[]"]
    by (simp add: FormValue_def ParseBool_false)
  have del: "snd (deleteTodoItem [\<lparr>Content = ''buy milk'', Done = False\<rparr>] ?r) = []"
    using p by (simp add: deleteTodoItem_def out_of_range_def)
  have h: "serve [] ?h = []"
    by (simp add: post del)
  have e': "([] :: TodoItem list) = serve [] ?h" using h by simp
  from out_of_range_is_404 [OF e p o] out_of_range_is_404 [OF e' p o] show ?thesis
    unfolding h by simp
qed





subsection \<open>The Existence check\<close>

text \<open>
  On an out-of-range id the handler passes the same text to the response writer as Read
  does; the handler serves \<open>HEAD\<close> requests only (line 39), so none of it is sent.
\<close>

lemma getTodoItemExists_writes_not_found:
  "fst (getTodoItemExists [] \<lparr>PathValue = ''0'', Host = [], Form = None\<rparr>) =
     \<lparr>resp_header = [], resp_status = Some 404, resp_body = [Text ''`id` not found'']\<rparr>"
  by (simp add: getTodoItemExists_def Atoi_0 out_of_range_def id_not_found_eq)

text \<open>
  Claim C2. For every request to the Existence check (\<open>HEAD /todo-item/{id}\<close>) whose id is
  an integer, the response is a status and nothing else: 200 with no body when
  \<open>0 \<le> id < length\<close>, and 404 with no body when the id is out of range. On the first of the
  two the handler writes no body itself. The collection is unchanged.
\<close>

theorem getTodoItemExists_status_only:
  assumes "Atoi (PathValue r) = Some i"
  shows "(0 \<le> i \<and> i < int (length todoItems) \<longrightarrow>
            HEAD_response (fst (getTodoItemExists todoItems r)) =
              \<lparr>resp_header = [], resp_status = Some 200, resp_body = []\<rparr> \<and>
            fst (getTodoItemExists todoItems r) =
              \<lparr>resp_header = [], resp_status = Some 200, resp_body = []\<rparr>) \<and>
         (i < 0 \<or> int (length todoItems) \<le> i \<longrightarrow>
            HEAD_response (fst (getTodoItemExists todoItems r)) =
              \<lparr>resp_header = [], resp_status = Some 404, resp_body = []\<rparr>) \<and>
         snd (getTodoItemExists todoItems r) = todoItems"
proof -
  have found: "getTodoItemExists todoItems r =
      (\<lparr>resp_header = [], resp_status = Some 200, resp_body = []\<rparr>, todoItems)"
    if "0 \<le> i \<and> i < int (length todoItems)"
    using assms that by (simp add: getTodoItemExists_def out_of_range_def status_only_eq)
  have missing: "getTodoItemExists todoItems r =
      (\<lparr>resp_header = [], resp_status = Some 404,
         resp_body = [Text ''`id` not found'']\<rparr>, todoItems)"
    if "i < 0 \<or> int (length todoItems) \<le> i"
    using not_found(2) [OF assms that] by (simp add: id_not_found_eq)
  have either: "(0 \<le> i \<and> i < int (length todoItems)) \<or> (i < 0 \<or> int (length todoItems) \<le> i)"
    by linarith
  have same: "snd (getTodoItemExists todoItems r) = todoItems"
    using either found missing by auto
  show ?thesis
    using found missing same by (auto simp: HEAD_response_def)
qed

theorem getTodoItemExists_status_only_witness:
  "HEAD_response (fst (getTodoItemExists [\<lparr>Content = ''a'', Done = False\<rparr>]
       \<lparr>PathValue = ''0'', Host = [], Form = None\<rparr>)) =
     \<lparr>resp_header = [], resp_status = Some 200, resp_body = []\<rparr> \<and>
   HEAD_response (fst (getTodoItemExists [\<lparr>Content = ''a'', Done = False\<rparr>]
       \<lparr>PathValue = ''1'', Host = [], Form = None\<rparr>)) =
     \<lparr>resp_header = [], resp_status = Some 404, resp_body = []\<rparr> \<and>
   snd (getTodoItemExists [\<lparr>Content = ''a'', Done = False\<rparr>]
       \<lparr>PathValue = ''1'', Host = [], Form = None\<rparr>) = [\<lparr>Content = ''a'', Done = False\<rparr>]"
proof -
  let ?xs = "[\<lparr>Content = ''a'', Done = False\<rparr>]"
  let ?r0 = "\<lparr>PathValue = ''0'', Host = [], Form = None\<rparr>"
  let ?r1 = "\<lparr>PathValue = ''1'', Host = [], Form = None\<rparr>"
  have p0: "Atoi (PathValue ?r0) = Some 0" by (simp add: Atoi_0)
  have p1: "Atoi (PathValue ?r1) = Some 1" by (simp add: Atoi_1)
  from getTodoItemExists_status_only [OF p0, of ?xs]
    getTodoItemExists_status_only [OF p1, of ?xs]
  show ?thesis by (simp add: HEAD_response_def)
qed

subsection \<open>Requests that fail validation\<close>

text \<open>
  A malformed form, or a malformed \<open>done\<close> in Create and Replace, is answered before the
  collection is touched.
\<close>

lemma bad_body_keeps_items:
  "Form r = None \<Longrightarrow> createTodoItem todoItems r = (invalid_form, todoItems)"
  "Form r = Some f \<Longrightarrow> ParseBool (FormValue f ''done'') = None \<Longrightarrow>
     createTodoItem todoItems r = (bad_done, todoItems)"
  "Atoi (PathValue r) = Some i \<Longrightarrow> \<not> out_of_range todoItems i \<Longrightarrow> Form r = None \<Longrightarrow>
     replaceTodoItem todoItems r = (invalid_form, todoItems)"
  "Atoi (PathValue r) = Some i \<Longrightarrow> \<not> out_of_range todoItems i \<Longrightarrow> Form r = Some f \<Longrightarrow>
     ParseBool (FormValue f ''done'') = None \<Longrightarrow>
     replaceTodoItem todoItems r = (bad_done, todoItems)"
  "Atoi (PathValue r) = Some i \<Longrightarrow> \<not> out_of_range todoItems i \<Longrightarrow> Form r = None \<Longrightarrow>
     updateTodoItem todoItems r = (invalid_form, todoItems)"
  by (simp_all add: createTodoItem_def replaceTodoItem_def updateTodoItem_def)

text \<open>
  Claim C1 says that every request failing a validation step is answered 4xx with the
  collection left exactly as it was, also an Update with a non-empty \<open>content\<close> and a
  malformed \<open>done\<close>. Update stores the content before it parses \<open>done\<close>: on the
  one-item collection holding \<open>a\<close>, such a request is answered 400 and the item's
  \<open>Content\<close> is \<open>b\<close> afterwards.
\<close>

theorem updateTodoItem_bad_done_after_content:
  "updateTodoItem [\<lparr>Content = ''a'', Done = False\<rparr>]
       \<lparr>PathValue = ''0'', Host = [],
        Form = Some [(''content'', ''b''), (''done'', ''maybe'')]\<rparr> =
     (\<lparr>resp_header = [], resp_status = Some 400,
        resp_body = [Text ''`done` must be of type bool'']\<rparr>,
      [\<lparr>Content = ''b'', Done = False\<rparr>])"
  by (simp add: updateTodoItem_def Atoi_0 out_of_range_def FormValue_def ParseBool_def
      bad_done_eq)

subsection \<open>A listener that fails\<close>

text \<open>
  The server closed by \<open>Shutdown\<close> ends the listener goroutine without a panic, and so does
  \<open>nil\<close>; every other error panics there.
\<close>

lemma listener_closed:
  "listener_goroutine None = None" "listener_goroutine (Some ErrServerClosed) = None"
  by (simp_all add: listener_goroutine_def listener_def goroutine_def)

lemma listener_fatal:
  "e \<noteq> ErrServerClosed \<Longrightarrow> listener_goroutine (Some e) = Some (Exit 2 (Panic_report e))"
  by (simp add: listener_goroutine_def listener_def goroutine_def)

text \<open>The guard would log and exit with status 1, were it deferred in the same goroutine.\<close>

lemma guard_in_same_goroutine:
  "e \<noteq> ErrServerClosed \<Longrightarrow>
     goroutine [recoverer] (listener (Some e)) =
       Some (Exit 1 (Written (''unexpected panic occurred: '' @ Error e)))"
  by (simp add: listener_def goroutine_def recoverer_def)

text \<open>
  Claim C9 says that every error of the listener other than the closed server is caught by
  the top-level panic guard, logged to the error stream, and ends the process with status
  1. When the port is taken, the listener goroutine panics with the error of the bind; the
  guard is not among its deferred calls, so the process ends with the report of the
  runtime and status 2, not with the line of the guard and status 1.
\<close>

theorem listener_panic_misses_guard:
  "listener_goroutine (Some (Other_error ''listen tcp :8080: bind: address already in use'')) =
     Some (Exit 2 (Panic_report
       (Other_error ''listen tcp :8080: bind: address already in use''))) \<and>
   listener_goroutine (Some (Other_error ''listen tcp :8080: bind: address already in use'')) \<noteq>
     Some (Exit 1 (Written
       (''unexpected panic occurred: '' @ ''listen tcp :8080: bind: address already in use'')))"
  by (simp add: listener_goroutine_def listener_def goroutine_def)

end
